theory Spec2Isabelle
  imports Main
begin

section \<open>The Enigma machine of enigma.go\<close>

text \<open>
  A shallow embedding of the rotor machine of \<^verbatim>\<open>enigma.go\<close>: the data (\<^verbatim>\<open>Rotor\<close>,
  \<^verbatim>\<open>Enigma\<close>, the three wiring tables), the constructor, the setters, the stepping of the
  rotors and \<^verbatim>\<open>encryptChar\<close>.  A method that mutates its receiver takes the machine and
  returns the machine after the call; a method that returns an \<^verbatim>\<open>error\<close> returns it next
  to that machine (\<open>None\<close> is Go's \<^verbatim>\<open>nil\<close>); a run-time panic is a value of its own.
\<close>

subsection \<open>Integers, runes and bytes\<close>

text \<open>
  Go's \<^verbatim>\<open>int\<close> and \<^verbatim>\<open>rune\<close> are modelled by \<open>int\<close>.  Every setter checks its
  arguments against \<open>[1,26]\<close> before it computes with them, and every other computation
  of the program is on values between \<open>-26\<close> and \<open>122\<close> once the rotor positions and ring
  settings are inside \<open>[0,26)\<close>, which the theorems that compute assume or establish; so
  no operation modelled here can leave the range of a machine integer.
  A rune is its code point: \<open>65\<close> is \<^verbatim>\<open>'A'\<close>, \<open>90\<close> is \<^verbatim>\<open>'Z'\<close>, \<open>97\<close> is \<^verbatim>\<open>'a'\<close>
  and \<open>122\<close> is \<^verbatim>\<open>'z'\<close>.
\<close>

type_synonym rune = int

text \<open>Go's \<^verbatim>\<open>%\<close> truncates towards zero: the result has the sign of the dividend.\<close>

definition go_rem :: "int \<Rightarrow> int \<Rightarrow> int" where
  "go_rem a b = sgn a * (\<bar>a\<bar> mod \<bar>b\<bar>)"

datatype panic = IndexOutOfRange

text \<open>
  \<^verbatim>\<open>s[i]\<close> on a Go string: the byte at index \<open>i\<close>, and a panic outside the string.
\<close>

definition index_byte :: "string \<Rightarrow> int \<Rightarrow> panic + int" where
  "index_byte s i =
     (if 0 \<le> i \<and> i < int (length s) then Inr (of_char (s ! nat i)) else Inl IndexOutOfRange)"

text \<open>
  \<^verbatim>\<open>int(b - 'A')\<close> for a byte \<open>b\<close>: the subtraction is on \<^verbatim>\<open>uint8\<close> and wraps around.
\<close>

definition byte_minus_A :: "int \<Rightarrow> int" where
  "byte_minus_A b = (b - 65) mod 256"

text \<open>
  \<^verbatim>\<open>unicode.ToUpper\<close> belongs to Go's standard library.  On ASCII it is the arithmetic
  below; beyond ASCII it reads the Unicode case tables, which are taken as the parameter
  \<open>tbl\<close> (the upper case of a non-ASCII rune).
\<close>

definition ToUpper :: "(rune \<Rightarrow> rune) \<Rightarrow> rune \<Rightarrow> rune" where
  "ToUpper tbl r =
     (if r \<le> 127 then (if 97 \<le> r \<and> r \<le> 122 then r - 32 else r) else tbl r)"

subsection \<open>Data\<close>

record Rotor =
  name :: string
  wiring :: string
  position :: int
  notch :: int
  ringSetting :: int

text \<open>The array \<^verbatim>\<open>[3]Rotor\<close>: three rotors, read and written at the indices 0, 1, 2.\<close>

datatype 'a array3 = Array3 'a 'a 'a

fun get3 :: "'a array3 \<Rightarrow> nat \<Rightarrow> 'a" where
  "get3 (Array3 x y z) i = (if i = 0 then x else if i = 1 then y else z)"

fun set3 :: "'a array3 \<Rightarrow> nat \<Rightarrow> 'a \<Rightarrow> 'a array3" where
  "set3 (Array3 x y z) i v =
     (if i = 0 then Array3 v y z else if i = 1 then Array3 x v z else Array3 x y v)"

record Enigma =
  rotors :: "Rotor array3"
  reflector :: string
  plugboard :: "rune \<rightharpoonup> rune"

definition rotorWirings :: "string \<rightharpoonup> string" where
  "rotorWirings = map_of
     [(''I'', ''EKMFLGDQVZNTOWYHXUSPAIBRCJ''),
      (''II'', ''AJDKSIRUXBLHWTMCQGZNPYFVOE''),
      (''III'', ''BDFHJLCPRTXVZNYEIWGAKMUSQO''),
      (''IV'', ''ESOVPZJAYQUIRHXLNFTGKDCMWB''),
      (''V'', ''VZBRGITYUPSDNHLXAWMJQOFECK'')]"

text \<open>Reading a Go map at a missing key gives the zero value.\<close>

definition rotorNotches :: "string \<Rightarrow> int" where
  "rotorNotches n =
     (case map_of [(''I'', 17), (''II'', 5), (''III'', 22), (''IV'', 10), (''V'', 26)] n of
        Some k \<Rightarrow> k | None \<Rightarrow> 0)"

definition reflectors :: "string \<rightharpoonup> string" where
  "reflectors = map_of
     [(''A'', ''EJMZALYXVBWFCRQUONTSPIKHGD''),
      (''B'', ''YRUHQSLDPXNGOKMIEBFZCWVJAT''),
      (''C'', ''FVPJIAOYEDRZXWGCTKUQSBNMHL'')]"

subsection \<open>Errors\<close>

text \<open>
  One constructor for each error the configuration functions return; the arguments are
  what the message of the source prints.
\<close>

datatype error =
    WrongRotorCount
  | UnknownReflector string
  | UnknownRotor string
  | OutOfRange string
  | InvalidLetter
  | AlreadyConnected rune

subsection \<open>Construction and configuration\<close>

definition zeroRotor :: Rotor where
  "zeroRotor = \<lparr>name = [], wiring = [], position = 0, notch = 0, ringSetting = 0\<rparr>"

text \<open>The loop \<^verbatim>\<open>for i, name := range rotorNames\<close> of \<^verbatim>\<open>NewEnigma\<close>.\<close>

fun fill_rotors :: "Rotor array3 \<Rightarrow> nat \<Rightarrow> string list \<Rightarrow> error + Rotor array3" where
  "fill_rotors rs i [] = Inr rs"
| "fill_rotors rs i (nm # names) =
     (case rotorWirings nm of
        None \<Rightarrow> Inl (UnknownRotor nm)
      | Some w \<Rightarrow>
          fill_rotors
            (set3 rs i \<lparr>name = nm, wiring = w, position = 0, notch = rotorNotches nm,
                        ringSetting = 0\<rparr>)
            (Suc i) names)"

definition NewEnigma :: "string list \<Rightarrow> string \<Rightarrow> error + Enigma" where
  "NewEnigma rotorNames reflectorName =
     (if length rotorNames \<noteq> 3 then Inl WrongRotorCount
      else case reflectors reflectorName of
        None \<Rightarrow> Inl (UnknownReflector reflectorName)
      | Some reflectorWiring \<Rightarrow>
          (case fill_rotors (Array3 zeroRotor zeroRotor zeroRotor) 0 rotorNames of
             Inl err \<Rightarrow> Inl err
           | Inr rs \<Rightarrow>
               Inr \<lparr>rotors = rs, reflector = reflectorWiring, plugboard = Map.empty\<rparr>))"

definition rotor :: "Enigma \<Rightarrow> nat \<Rightarrow> Rotor" where
  "rotor e i = get3 (rotors e) i"

text \<open>\<^verbatim>\<open>e.rotors[i].position = v\<close> and \<^verbatim>\<open>e.rotors[i].ringSetting = v\<close>.\<close>

definition set_position :: "Enigma \<Rightarrow> nat \<Rightarrow> int \<Rightarrow> Enigma" where
  "set_position e i v = e\<lparr>rotors := set3 (rotors e) i ((rotor e i)\<lparr>position := v\<rparr>)\<rparr>"

definition set_ringSetting :: "Enigma \<Rightarrow> nat \<Rightarrow> int \<Rightarrow> Enigma" where
  "set_ringSetting e i v = e\<lparr>rotors := set3 (rotors e) i ((rotor e i)\<lparr>ringSetting := v\<rparr>)\<rparr>"

fun Reset_loop :: "Enigma \<Rightarrow> nat list \<Rightarrow> Enigma" where
  "Reset_loop e [] = e"
| "Reset_loop e (i # idxs) = Reset_loop (set_position e i 0) idxs"

definition Reset :: "Enigma \<Rightarrow> Enigma" where
  "Reset e = Reset_loop e [0, 1, 2]"

definition SetRotorPositions :: "Enigma \<Rightarrow> int \<Rightarrow> int \<Rightarrow> int \<Rightarrow> error option \<times> Enigma" where
  "SetRotorPositions e pos1 pos2 pos3 =
     (if pos1 < 1 \<or> pos1 > 26 \<or> pos2 < 1 \<or> pos2 > 26 \<or> pos3 < 1 \<or> pos3 > 26
      then (Some (OutOfRange ''rotor positions must be between 1 and 26''), e)
      else (None,
            set_position (set_position (set_position e 0 (pos1 - 1)) 1 (pos2 - 1)) 2 (pos3 - 1)))"

definition SetRingSettings :: "Enigma \<Rightarrow> int \<Rightarrow> int \<Rightarrow> int \<Rightarrow> error option \<times> Enigma" where
  "SetRingSettings e r1 r2 r3 =
     (if r1 < 1 \<or> r1 > 26 \<or> r2 < 1 \<or> r2 > 26 \<or> r3 < 1 \<or> r3 > 26
      then (Some (OutOfRange ''ring settings must be between 1 and 26''), e)
      else (None,
            set_ringSetting (set_ringSetting (set_ringSetting e 0 (r1 - 1)) 1 (r2 - 1)) 2 (r3 - 1)))"

definition AddPlugboardConnection ::
  "(rune \<Rightarrow> rune) \<Rightarrow> Enigma \<Rightarrow> rune \<Rightarrow> rune \<Rightarrow> error option \<times> Enigma" where
  "AddPlugboardConnection tbl e a0 b0 =
     (let a = ToUpper tbl a0; b = ToUpper tbl b0 in
      if a < 65 \<or> a > 90 \<or> b < 65 \<or> b > 90 then (Some InvalidLetter, e)
      else if plugboard e a \<noteq> None then (Some (AlreadyConnected a), e)
      else if plugboard e b \<noteq> None then (Some (AlreadyConnected b), e)
      else (None, e\<lparr>plugboard := ((plugboard e)(a \<mapsto> b))(b \<mapsto> a)\<rparr>))"

subsection \<open>Stepping\<close>

definition rotateRotors :: "Enigma \<Rightarrow> Enigma" where
  "rotateRotors e =
     (let e1 =
        (if position (rotor e 1) = notch (rotor e 1) - 1 then
           (let e' = set_position e 1 (go_rem (position (rotor e 1) + 1) 26)
            in set_position e' 0 (go_rem (position (rotor e' 0) + 1) 26))
         else if position (rotor e 2) = notch (rotor e 2) - 1 then
           set_position e 1 (go_rem (position (rotor e 1) + 1) 26)
         else e)
      in set_position e1 2 (go_rem (position (rotor e1 2) + 1) 26))"

subsection \<open>Substitution\<close>

definition rotor_offset :: "Rotor \<Rightarrow> int" where
  "rotor_offset r = go_rem (position r - ringSetting r + 26) 26"

text \<open>The body of the first loop of \<^verbatim>\<open>encryptChar\<close>, for the rotor \<open>r\<close>.\<close>

definition forward_body :: "Rotor \<Rightarrow> int \<Rightarrow> panic + int" where
  "forward_body r pos =
     (let offset = rotor_offset r;
          pos1 = go_rem (pos + offset) 26
      in case index_byte (wiring r) pos1 of
           Inl p \<Rightarrow> Inl p
         | Inr b \<Rightarrow> Inr (go_rem (byte_minus_A b - offset + 26) 26))"

fun forward_loop :: "Enigma \<Rightarrow> nat list \<Rightarrow> int \<Rightarrow> panic + int" where
  "forward_loop e [] pos = Inr pos"
| "forward_loop e (i # idxs) pos =
     (case forward_body (rotor e i) pos of
        Inl p \<Rightarrow> Inl p
      | Inr pos' \<Rightarrow> forward_loop e idxs pos')"

text \<open>
  The inner loop \<^verbatim>\<open>for j := 0; j < 26; j++\<close>: the first \<open>j\<close> whose wiring letter is
  \<open>pos\<close>; when there is none, \<open>pos\<close> stays as it is.
\<close>

function search_wiring :: "string \<Rightarrow> int \<Rightarrow> int \<Rightarrow> panic + int" where
  "search_wiring w pos j =
     (if j < 26 then
        (case index_byte w j of
           Inl p \<Rightarrow> Inl p
         | Inr b \<Rightarrow> if byte_minus_A b = pos then Inr j else search_wiring w pos (j + 1))
      else Inr pos)"
  by pat_completeness auto
termination
  by (relation "measure (\<lambda>(w, pos, j). nat (26 - j))") auto

definition backward_body :: "Rotor \<Rightarrow> int \<Rightarrow> panic + int" where
  "backward_body r pos =
     (let offset = rotor_offset r;
          pos1 = go_rem (pos + offset) 26
      in case search_wiring (wiring r) pos1 0 of
           Inl p \<Rightarrow> Inl p
         | Inr pos2 \<Rightarrow> Inr (go_rem (pos2 - offset + 26) 26))"

fun backward_loop :: "Enigma \<Rightarrow> nat list \<Rightarrow> int \<Rightarrow> panic + int" where
  "backward_loop e [] pos = Inr pos"
| "backward_loop e (i # idxs) pos =
     (case backward_body (rotor e i) pos of
        Inl p \<Rightarrow> Inl p
      | Inr pos' \<Rightarrow> backward_loop e idxs pos')"

text \<open>\<^verbatim>\<open>pos = int(e.reflector[pos] - 'A')\<close>.\<close>

definition reflect :: "string \<Rightarrow> int \<Rightarrow> panic + int" where
  "reflect w pos =
     (case index_byte w pos of Inl p \<Rightarrow> Inl p | Inr b \<Rightarrow> Inr (byte_minus_A b))"

text \<open>\<^verbatim>\<open>if val, ok := e.plugboard[c]; ok { c = val }\<close>.\<close>

definition plug :: "(rune \<rightharpoonup> rune) \<Rightarrow> rune \<Rightarrow> rune" where
  "plug pb c = (case pb c of Some val \<Rightarrow> val | None \<Rightarrow> c)"

definition encryptChar :: "Enigma \<Rightarrow> rune \<Rightarrow> panic + (rune \<times> Enigma)" where
  "encryptChar e c =
     (if c < 65 \<or> c > 90 then Inr (c, e)
      else
        let e1 = rotateRotors e;
            c1 = plug (plugboard e1) c
        in case forward_loop e1 [2, 1, 0] (c1 - 65) of
             Inl p \<Rightarrow> Inl p
           | Inr pos1 \<Rightarrow>
               (case reflect (reflector e1) pos1 of
                  Inl p \<Rightarrow> Inl p
                | Inr pos2 \<Rightarrow>
                    (case backward_loop e1 [0, 1, 2] pos2 of
                       Inl p \<Rightarrow> Inl p
                     | Inr pos3 \<Rightarrow> Inr (plug (plugboard e1) (pos3 + 65), e1))))"

text \<open>
  The loop of \<^verbatim>\<open>processIO\<close> over the characters of one line: each character goes through
  \<^verbatim>\<open>encryptChar\<close> in order, and the results are appended to the output.
\<close>

fun encryptRunes :: "Enigma \<Rightarrow> rune list \<Rightarrow> panic + (rune list \<times> Enigma)" where
  "encryptRunes e [] = Inr ([], e)"
| "encryptRunes e (c # cs) =
     (case encryptChar e c of
        Inl p \<Rightarrow> Inl p
      | Inr (r, e') \<Rightarrow>
          (case encryptRunes e' cs of
             Inl p \<Rightarrow> Inl p
           | Inr (rs, e'') \<Rightarrow> Inr (r # rs, e'')))"

section \<open>Notions used by the properties\<close>

text \<open>
  The machine that \<^verbatim>\<open>NewEnigma\<close> builds from the rotors I, II, III and the reflector B
  (the defaults of \<^verbatim>\<open>main\<close>), used as the example machine below.
\<close>

definition sample_machine :: Enigma where
  "sample_machine =
     \<lparr>rotors = Array3
        \<lparr>name = ''I'', wiring = ''EKMFLGDQVZNTOWYHXUSPAIBRCJ'', position = 0, notch = 17, ringSetting = 0\<rparr>
        \<lparr>name = ''II'', wiring = ''AJDKSIRUXBLHWTMCQGZNPYFVOE'', position = 0, notch = 5, ringSetting = 0\<rparr>
        \<lparr>name = ''III'', wiring = ''BDFHJLCPRTXVZNYEIWGAKMUSQO'', position = 0, notch = 22, ringSetting = 0\<rparr>,
      reflector = ''YRUHQSLDPXNGOKMIEBFZCWVJAT'', plugboard = Map.empty\<rparr>"

text \<open>
  The ranges the properties talk about: a rotor position inside \<open>[0,26)\<close>, a setter
  argument inside \<open>[1,26]\<close>, an ASCII letter of either case, and the alphabet.
\<close>

definition positions_in_range :: "Enigma \<Rightarrow> bool" where
  "positions_in_range e =
     (0 \<le> position (rotor e 0) \<and> position (rotor e 0) < 26 \<and>
      0 \<le> position (rotor e 1) \<and> position (rotor e 1) < 26 \<and>
      0 \<le> position (rotor e 2) \<and> position (rotor e 2) < 26)"

definition settings_in_range :: "Enigma \<Rightarrow> bool" where
  "settings_in_range e =
     (\<forall>i \<in> {0, 1, 2}.
        0 \<le> position (rotor e i) \<and> position (rotor e i) < 26 \<and>
        0 \<le> ringSetting (rotor e i) \<and> ringSetting (rotor e i) < 26)"

definition in_1_26 :: "int \<Rightarrow> bool" where
  "in_1_26 v = (1 \<le> v \<and> v \<le> 26)"

definition ascii_letter :: "rune \<Rightarrow> bool" where
  "ascii_letter c = (65 \<le> c \<and> c \<le> 90 \<or> 97 \<le> c \<and> c \<le> 122)"

text \<open>
  A rune that \<^verbatim>\<open>AddPlugboardConnection\<close> accepts as a letter: its upper case is in \<open>A-Z\<close>.
\<close>

definition upper_letter :: "(rune \<Rightarrow> rune) \<Rightarrow> rune \<Rightarrow> bool" where
  "upper_letter tbl c = (65 \<le> ToUpper tbl c \<and> ToUpper tbl c \<le> 90)"

definition alphabet :: string where
  "alphabet = ''ABCDEFGHIJKLMNOPQRSTUVWXYZ''"

text \<open>
  The letter of a wiring string at an index, as the number \<^verbatim>\<open>int(w[j] - 'A')\<close> that
  \<^verbatim>\<open>encryptChar\<close> computes from it.
\<close>

definition letter_index :: "string \<Rightarrow> nat \<Rightarrow> int" where
  "letter_index w j = byte_minus_A (of_char (w ! j))"

text \<open>
  A well-formed machine.  A rotor wiring has 26 distinct letters of \<open>A-Z\<close>; a reflector
  wiring has 26 letters and, as a map on \<open>0..25\<close>, is its own inverse and fixes no
  index; positions and ring settings are inside \<open>[0,26)\<close>; the plugboard only holds
  letters of \<open>A-Z\<close>, each entry together with its reverse.
\<close>

definition wiring_ok :: "string \<Rightarrow> bool" where
  "wiring_ok w =
     (length w = 26 \<and> distinct w \<and>
      list_all (\<lambda>c. 65 \<le> (of_char c :: int) \<and> (of_char c :: int) \<le> 90) w)"

definition reflector_ok :: "string \<Rightarrow> bool" where
  "reflector_ok w =
     (length w = 26 \<and>
      list_all (\<lambda>i. 0 \<le> letter_index w i \<and> letter_index w i < 26 \<and>
                    letter_index w i \<noteq> int i \<and>
                    letter_index w (nat (letter_index w i)) = int i) [0..<26])"

definition rotor_ok :: "Rotor \<Rightarrow> bool" where
  "rotor_ok r =
     (wiring_ok (wiring r) \<and> 0 \<le> position r \<and> position r < 26 \<and>
      0 \<le> ringSetting r \<and> ringSetting r < 26)"

definition plug_ok :: "(rune \<rightharpoonup> rune) \<Rightarrow> bool" where
  "plug_ok pb = (\<forall>a b. pb a = Some b \<longrightarrow> 65 \<le> a \<and> a \<le> 90 \<and> pb b = Some a)"

definition machine_ok :: "Enigma \<Rightarrow> bool" where
  "machine_ok e =
     (rotor_ok (rotor e 0) \<and> rotor_ok (rotor e 1) \<and> rotor_ok (rotor e 2) \<and>
      reflector_ok (reflector e) \<and> plug_ok (plugboard e))"

text \<open>
  The part of \<^verbatim>\<open>encryptChar\<close> that follows the rotation, as a function of the rotated
  machine: \<open>encryptChar_substitute\<close> below relates the two.
\<close>

definition substitute :: "Enigma \<Rightarrow> rune \<Rightarrow> panic + rune" where
  "substitute e1 c =
     (case forward_loop e1 [2, 1, 0] (plug (plugboard e1) c - 65) of
        Inl p \<Rightarrow> Inl p
      | Inr pos1 \<Rightarrow>
          (case reflect (reflector e1) pos1 of
             Inl p \<Rightarrow> Inl p
           | Inr pos2 \<Rightarrow>
               (case backward_loop e1 [0, 1, 2] pos2 of
                  Inl p \<Rightarrow> Inl p
                | Inr pos3 \<Rightarrow> Inr (plug (plugboard e1) (pos3 + 65)))))"

text \<open>
  The machines a caller can reach: \<^verbatim>\<open>NewEnigma\<close> succeeded, and then any of the
  operations ran any number of times, in any order.  A setter that fails returns the
  machine it was given.
\<close>

inductive reachable :: "(rune \<Rightarrow> rune) \<Rightarrow> Enigma \<Rightarrow> bool" for tbl :: "rune \<Rightarrow> rune" where
  created: "NewEnigma rotorNames reflectorName = Inr e \<Longrightarrow> reachable tbl e"
| reset: "reachable tbl e \<Longrightarrow> reachable tbl (Reset e)"
| positions: "reachable tbl e \<Longrightarrow> reachable tbl (snd (SetRotorPositions e p0 p1 p2))"
| rings: "reachable tbl e \<Longrightarrow> reachable tbl (snd (SetRingSettings e r0 r1 r2))"
| plugged: "reachable tbl e \<Longrightarrow> reachable tbl (snd (AddPlugboardConnection tbl e a b))"
| rotated: "reachable tbl e \<Longrightarrow> reachable tbl (rotateRotors e)"
| encrypted: "reachable tbl e \<Longrightarrow> encryptChar e c = Inr (r, e') \<Longrightarrow> reachable tbl e'"

section \<open>Auxiliary facts\<close>

declare search_wiring.simps [simp del]

subsection \<open>The example machine and the tables\<close>

lemma NewEnigma_sample: "NewEnigma [''I'', ''II'', ''III''] ''B'' = Inr sample_machine"
  by (simp add: NewEnigma_def reflectors_def rotorWirings_def rotorNotches_def sample_machine_def zeroRotor_def)

lemma reachable_sample: "reachable id sample_machine"
  by (rule reachable.created [OF NewEnigma_sample])

lemma golden_A_to_B: "map_sum id fst (encryptChar sample_machine 65) = Inr 66"
  by code_simp

lemma rotors_cases: "\<exists>x y z. rotors e = Array3 x y z"
  by (cases "rotors e") auto

lemma ran_rotorWirings:
  "ran rotorWirings = {''EKMFLGDQVZNTOWYHXUSPAIBRCJ'', ''AJDKSIRUXBLHWTMCQGZNPYFVOE'',
     ''BDFHJLCPRTXVZNYEIWGAKMUSQO'', ''ESOVPZJAYQUIRHXLNFTGKDCMWB'',
     ''VZBRGITYUPSDNHLXAWMJQOFECK''}"
  unfolding rotorWirings_def by (subst ran_distinct) auto

lemma ran_reflectors:
  "ran reflectors = {''EJMZALYXVBWFCRQUONTSPIKHGD'', ''YRUHQSLDPXNGOKMIEBFZCWVJAT'',
     ''FVPJIAOYEDRZXWGCTKUQSBNMHL''}"
  unfolding reflectors_def by (subst ran_distinct) auto

lemma rotorWirings_ok: "w \<in> ran rotorWirings \<Longrightarrow> wiring_ok w"
  unfolding ran_rotorWirings by (auto simp: wiring_ok_def)

lemma upt_26: "[0..<26] = [0,1,2,3,4,5,6,7,8,9,10,11,12,13,14,15,16,17,18,19,20,21,22,23,24,25]"
  by (simp add: upt_rec)

lemma reflectors_ok: "w \<in> ran reflectors \<Longrightarrow> reflector_ok w"
  unfolding ran_reflectors
  by (auto simp: reflector_ok_def upt_26 letter_index_def byte_minus_A_def)

subsection \<open>Arithmetic modulo 26\<close>

lemma go_rem_nonneg: "0 \<le> a \<Longrightarrow> go_rem a 26 = a mod 26"
  by (simp add: go_rem_def sgn_if)

lemma go_rem_step: "0 \<le> p \<Longrightarrow> 0 \<le> go_rem (p + 1) 26 \<and> go_rem (p + 1) 26 < 26"
  by (simp add: go_rem_nonneg)

lemma unshift_shift: "((x + k) mod 26 - k) mod 26 = x mod (26::int)"
  by (simp add: mod_diff_left_eq)

lemma shift_unshift: "((x - k) mod 26 + k) mod 26 = x mod (26::int)"
  by (simp add: mod_add_left_eq)

lemma shifted_back: "0 \<le> n \<Longrightarrow> n < 26 \<Longrightarrow> n = ((n - k + 26) mod 26 + k) mod (26::int)"
  by (simp add: shift_unshift)

lemma unshifted_nat:
  "0 \<le> p \<Longrightarrow> p < 26 \<Longrightarrow> (int (nat ((p + k) mod 26)) - k + 26) mod 26 = p"
  by (simp add: unshift_shift)

lemma shifted_nat: "j < 26 \<Longrightarrow> nat (((int j - k + 26) mod 26 + k) mod 26) = j"
  by (simp add: shift_unshift)

lemma unshifted: "0 \<le> p \<Longrightarrow> p < 26 \<Longrightarrow> ((p + k) mod 26 - k + 26) mod 26 = (p::int)"
  by (simp add: unshift_shift)

subsection \<open>A rotor wiring is a permutation of the 26 indices\<close>

lemma letter_index_range:
  assumes "wiring_ok w" "j < 26"
  shows "0 \<le> letter_index w j \<and> letter_index w j < 26"
proof -
  have "w ! j \<in> set w"
    using assms by (simp add: wiring_ok_def)
  then have "65 \<le> (of_char (w ! j) :: int) \<and> (of_char (w ! j) :: int) \<le> 90"
    using assms(1) by (simp add: wiring_ok_def list_all_iff)
  then show ?thesis
    by (simp add: letter_index_def byte_minus_A_def)
qed

lemma letter_index_inj:
  assumes "wiring_ok w" "i < 26" "j < 26" "letter_index w i = letter_index w j"
  shows "i = j"
proof -
  have ri: "w ! i \<in> set w" and rj: "w ! j \<in> set w"
    using assms by (simp_all add: wiring_ok_def)
  have bi: "65 \<le> (of_char (w ! i) :: int) \<and> (of_char (w ! i) :: int) \<le> 90"
    using ri assms(1) by (simp add: wiring_ok_def list_all_iff)
  have bj: "65 \<le> (of_char (w ! j) :: int) \<and> (of_char (w ! j) :: int) \<le> 90"
    using rj assms(1) by (simp add: wiring_ok_def list_all_iff)
  have "(of_char (w ! i) :: int) = of_char (w ! j)"
    using assms(4) bi bj by (simp add: letter_index_def byte_minus_A_def)
  then have "w ! i = w ! j"
    by simp
  then show ?thesis
    using assms by (simp add: wiring_ok_def nth_eq_iff_index_eq)
qed

lemma letter_index_surj:
  assumes "wiring_ok w" "0 \<le> p" "p < 26"
  shows "\<exists>j<26. letter_index w j = p"
proof -
  have inj: "inj_on (letter_index w) {..<26}"
    using assms(1) by (auto intro!: inj_onI dest: letter_index_inj)
  have sub: "letter_index w ` {..<26} \<subseteq> {0..<26}"
    using assms(1) letter_index_range by auto
  have "card (letter_index w ` {..<26}) = 26"
    using inj by (simp add: card_image)
  then have "letter_index w ` {..<26} = {0..<26}"
    using sub by (intro card_subset_eq) simp_all
  then have "p \<in> letter_index w ` {..<26}"
    using assms by simp
  then show ?thesis
    by auto
qed

lemma index_byte_ok:
  "length w = 26 \<Longrightarrow> 0 \<le> p \<Longrightarrow> p < 26 \<Longrightarrow> index_byte w p = Inr (of_char (w ! nat p))"
  by (simp add: index_byte_def)

lemma search_wiring_finds:
  assumes "wiring_ok w" "j < 26"
  shows "k \<le> j \<Longrightarrow> search_wiring w (letter_index w j) (int k) = Inr (int j)"
proof (induction "j - k" arbitrary: k)
  case 0
  then have "k = j" by simp
  then show ?case
    using assms
    by (subst search_wiring.simps)
       (simp add: index_byte_ok wiring_ok_def letter_index_def)
next
  case (Suc n)
  then have kj: "k < j" and k26: "k < 26" and n: "n = j - Suc k"
    using assms by simp_all
  have ne: "letter_index w k \<noteq> letter_index w j"
    using letter_index_inj [OF assms(1) k26 assms(2)] kj by auto
  have "search_wiring w (letter_index w j) (int k) =
        search_wiring w (letter_index w j) (int (Suc k))"
    using assms k26 ne
    by (subst search_wiring.simps)
       (simp add: index_byte_ok wiring_ok_def letter_index_def add.commute)
  also have "\<dots> = Inr (int j)"
    using Suc.hyps(1) [OF n] kj by simp
  finally show ?case .
qed

subsection \<open>The backward pass through a rotor inverts the forward pass\<close>

lemma rotor_offset_range:
  "rotor_ok r \<Longrightarrow> 0 \<le> rotor_offset r \<and> rotor_offset r < 26"
  by (simp add: rotor_ok_def rotor_offset_def go_rem_nonneg)

lemma forward_body_eq:
  assumes "rotor_ok r" "0 \<le> pos" "pos < 26"
  shows "forward_body r pos =
     Inr ((letter_index (wiring r) (nat ((pos + rotor_offset r) mod 26))
            - rotor_offset r + 26) mod 26)"
proof -
  have w: "wiring_ok (wiring r)"
    using assms by (simp add: rotor_ok_def)
  have o: "0 \<le> rotor_offset r \<and> rotor_offset r < 26"
    using assms rotor_offset_range by blast
  have li: "0 \<le> letter_index (wiring r) (nat ((pos + rotor_offset r) mod 26))"
    using letter_index_range [OF w, of "nat ((pos + rotor_offset r) mod 26)"] by simp
  show ?thesis
    using w o li assms
    by (simp add: forward_body_def Let_def go_rem_nonneg index_byte_ok wiring_ok_def
        letter_index_def)
qed

lemma backward_body_eq:
  assumes "rotor_ok r" "0 \<le> pos" "pos < 26" "j < 26"
    "letter_index (wiring r) j = (pos + rotor_offset r) mod 26"
  shows "backward_body r pos = Inr ((int j - rotor_offset r + 26) mod 26)"
proof -
  have w: "wiring_ok (wiring r)"
    using assms by (simp add: rotor_ok_def)
  have o: "0 \<le> rotor_offset r \<and> rotor_offset r < 26"
    using assms rotor_offset_range by blast
  have "search_wiring (wiring r) (letter_index (wiring r) j) (int 0) = Inr (int j)"
    using search_wiring_finds [OF w assms(4)] by blast
  then show ?thesis
    using o assms
    by (simp add: backward_body_def Let_def go_rem_nonneg)
qed

lemma forward_then_backward:
  assumes "rotor_ok r" "0 \<le> pos" "pos < 26"
  shows "\<exists>q. forward_body r pos = Inr q \<and> 0 \<le> q \<and> q < 26 \<and> backward_body r q = Inr pos"
proof -
  let ?o = "rotor_offset r"
  let ?j = "nat ((pos + ?o) mod 26)"
  let ?n = "letter_index (wiring r) ?j"
  let ?q = "(?n - ?o + 26) mod 26"
  have w: "wiring_ok (wiring r)"
    using assms by (simp add: rotor_ok_def)
  have o: "0 \<le> ?o \<and> ?o < 26"
    using assms rotor_offset_range by blast
  have j: "?j < 26" by simp
  have n: "0 \<le> ?n \<and> ?n < 26"
    using letter_index_range [OF w j] .
  have f: "forward_body r pos = Inr ?q"
    using forward_body_eq [OF assms] .
  have q: "0 \<le> ?q" "?q < 26" by simp_all
  have nq: "?n = (?q + ?o) mod 26"
    using n by (intro shifted_back) simp_all
  have b1: "backward_body r ?q = Inr ((int ?j - ?o + 26) mod 26)"
    by (rule backward_body_eq [OF assms(1) q j nq])
  have b2: "(int ?j - ?o + 26) mod 26 = pos"
    by (rule unshifted_nat [OF assms(2,3)])
  have b: "backward_body r ?q = Inr pos"
    by (simp only: b1 b2)
  show ?thesis
    by (intro exI [of _ ?q] conjI f q b)
qed

lemma backward_then_forward:
  assumes "rotor_ok r" "0 \<le> pos" "pos < 26"
  shows "\<exists>q. backward_body r pos = Inr q \<and> 0 \<le> q \<and> q < 26 \<and> forward_body r q = Inr pos"
proof -
  let ?o = "rotor_offset r"
  have w: "wiring_ok (wiring r)"
    using assms by (simp add: rotor_ok_def)
  have o: "0 \<le> ?o \<and> ?o < 26"
    using assms rotor_offset_range by blast
  obtain j where j: "j < 26" and lj: "letter_index (wiring r) j = (pos + ?o) mod 26"
    using letter_index_surj [OF w, of "(pos + ?o) mod 26"] by auto
  let ?q = "(int j - ?o + 26) mod 26"
  have b: "backward_body r pos = Inr ?q"
    using backward_body_eq [OF assms j lj] .
  have q: "0 \<le> ?q" "?q < 26" by simp_all
  have jq: "nat ((?q + ?o) mod 26) = j"
    by (rule shifted_nat [OF j])
  have u: "((pos + ?o) mod 26 - ?o + 26) mod 26 = pos"
    by (rule unshifted [OF assms(2,3)])
  have f: "forward_body r ?q = Inr pos"
    using forward_body_eq [OF assms(1) q] by (simp only: jq lj u)
  show ?thesis
    by (intro exI [of _ ?q] conjI b q f)
qed

lemma forward_backward_loops:
  assumes "rotor_ok (rotor e 0)" "rotor_ok (rotor e 1)" "rotor_ok (rotor e 2)"
    "0 \<le> pos" "pos < 26"
  shows "\<exists>q. forward_loop e [2, 1, 0] pos = Inr q \<and> 0 \<le> q \<and> q < 26 \<and>
             backward_loop e [0, 1, 2] q = Inr pos"
proof -
  obtain q2 where q2: "forward_body (rotor e 2) pos = Inr q2" "0 \<le> q2" "q2 < 26"
      "backward_body (rotor e 2) q2 = Inr pos"
    using forward_then_backward [OF assms(3,4,5)] by blast
  obtain q1 where q1: "forward_body (rotor e 1) q2 = Inr q1" "0 \<le> q1" "q1 < 26"
      "backward_body (rotor e 1) q1 = Inr q2"
    using forward_then_backward [OF assms(2) q2(2,3)] by blast
  obtain q0 where q0: "forward_body (rotor e 0) q1 = Inr q0" "0 \<le> q0" "q0 < 26"
      "backward_body (rotor e 0) q0 = Inr q1"
    using forward_then_backward [OF assms(1) q1(2,3)] by blast
  show ?thesis
    using q2 q1 q0 by simp
qed

lemma backward_forward_loops:
  assumes "rotor_ok (rotor e 0)" "rotor_ok (rotor e 1)" "rotor_ok (rotor e 2)"
    "0 \<le> pos" "pos < 26"
  shows "\<exists>q. backward_loop e [0, 1, 2] pos = Inr q \<and> 0 \<le> q \<and> q < 26 \<and>
             forward_loop e [2, 1, 0] q = Inr pos"
proof -
  obtain q0 where q0: "backward_body (rotor e 0) pos = Inr q0" "0 \<le> q0" "q0 < 26"
      "forward_body (rotor e 0) q0 = Inr pos"
    using backward_then_forward [OF assms(1,4,5)] by blast
  obtain q1 where q1: "backward_body (rotor e 1) q0 = Inr q1" "0 \<le> q1" "q1 < 26"
      "forward_body (rotor e 1) q1 = Inr q0"
    using backward_then_forward [OF assms(2) q0(2,3)] by blast
  obtain q2 where q2: "backward_body (rotor e 2) q1 = Inr q2" "0 \<le> q2" "q2 < 26"
      "forward_body (rotor e 2) q2 = Inr q1"
    using backward_then_forward [OF assms(3) q1(2,3)] by blast
  show ?thesis
    using q2 q1 q0 by simp
qed

subsection \<open>Reflector and plugboard\<close>

lemma reflect_ok:
  assumes "reflector_ok w" "0 \<le> x" "x < 26"
  shows "\<exists>y. reflect w x = Inr y \<and> 0 \<le> y \<and> y < 26 \<and> y \<noteq> x \<and> reflect w y = Inr x"
proof -
  let ?y = "letter_index w (nat x)"
  have len: "length w = 26"
    using assms(1) by (simp add: reflector_ok_def)
  have "nat x \<in> set [0..<26]"
    using assms(2,3) by simp
  then have y: "0 \<le> ?y \<and> ?y < 26 \<and> ?y \<noteq> int (nat x) \<and> letter_index w (nat ?y) = int (nat x)"
    using assms(1) unfolding reflector_ok_def list_all_iff by blast
  have "reflect w x = Inr ?y"
    using len assms(2,3) by (simp add: reflect_def index_byte_ok letter_index_def)
  moreover have "reflect w ?y = Inr x"
    using len y assms(2) by (simp add: reflect_def index_byte_ok letter_index_def)
  ultimately show ?thesis
    using y assms(2) by simp
qed

lemma plug_ok_partner:
  "plug_ok pb \<Longrightarrow> pb a = Some b \<Longrightarrow>
   65 \<le> a \<and> a \<le> 90 \<and> 65 \<le> b \<and> b \<le> 90 \<and> pb b = Some a"
  unfolding plug_ok_def by blast

lemma plug_involution:
  assumes "plug_ok pb"
  shows "plug pb (plug pb c) = c"
proof (cases "pb c")
  case None
  then show ?thesis by (simp add: plug_def)
next
  case (Some v)
  then have "pb v = Some c"
    using plug_ok_partner [OF assms] by blast
  with Some show ?thesis by (simp add: plug_def)
qed

lemma plug_letter:
  assumes "plug_ok pb" "65 \<le> c" "c \<le> 90"
  shows "65 \<le> plug pb c \<and> plug pb c \<le> 90"
proof (cases "pb c")
  case None
  then show ?thesis using assms by (simp add: plug_def)
next
  case (Some v)
  then have "65 \<le> v \<and> v \<le> 90"
    using plug_ok_partner [OF assms(1)] by blast
  with Some show ?thesis by (simp add: plug_def)
qed

lemma ascii_letter_upper_letter: "ascii_letter c \<Longrightarrow> upper_letter tbl c"
  by (auto simp: ascii_letter_def upper_letter_def ToUpper_def)

subsection \<open>The substitution is a fixed-point-free involution on the letters\<close>

lemma encryptChar_substitute:
  "65 \<le> c \<Longrightarrow> c \<le> 90 \<Longrightarrow>
   encryptChar e c =
     (case substitute (rotateRotors e) c of
        Inl p \<Rightarrow> Inl p
      | Inr r \<Rightarrow> Inr (r, rotateRotors e))"
  by (simp add: encryptChar_def substitute_def Let_def split: sum.splits)

lemma substitute_ok:
  assumes "machine_ok e" "65 \<le> c" "c \<le> 90"
  shows "\<exists>r. substitute e c = Inr r \<and> 65 \<le> r \<and> r \<le> 90 \<and> r \<noteq> c \<and>
             substitute e r = Inr c"
proof -
  let ?pb = "plugboard e"
  have r0: "rotor_ok (rotor e 0)" and r1: "rotor_ok (rotor e 1)" and r2: "rotor_ok (rotor e 2)"
    and rf: "reflector_ok (reflector e)" and pb: "plug_ok ?pb"
    using assms(1) by (simp_all add: machine_ok_def)
  let ?x = "plug ?pb c - 65"
  have x: "0 \<le> ?x" "?x < 26"
    using plug_letter [OF pb assms(2,3)] by simp_all
  obtain f where f: "forward_loop e [2, 1, 0] ?x = Inr f" "0 \<le> f" "f < 26"
      "backward_loop e [0, 1, 2] f = Inr ?x"
    using forward_backward_loops [OF r0 r1 r2 x] by blast
  obtain u where u: "reflect (reflector e) f = Inr u" "0 \<le> u" "u < 26" "u \<noteq> f"
      "reflect (reflector e) u = Inr f"
    using reflect_ok [OF rf f(2,3)] by blast
  obtain b where b: "backward_loop e [0, 1, 2] u = Inr b" "0 \<le> b" "b < 26"
      "forward_loop e [2, 1, 0] b = Inr u"
    using backward_forward_loops [OF r0 r1 r2 u(2,3)] by blast
  let ?r = "plug ?pb (b + 65)"
  have s: "substitute e c = Inr ?r"
    using f(1) u(1) b(1) by (simp add: substitute_def)
  have rl: "65 \<le> ?r \<and> ?r \<le> 90"
    using plug_letter [OF pb, of "b + 65"] b(2,3) by simp
  have pr: "plug ?pb ?r - 65 = b"
    using plug_involution [OF pb] by simp
  have s': "substitute e ?r = Inr c"
    using pr b(4) u(5) f(4) plug_involution [OF pb]
    by (simp add: substitute_def)
  have "?r \<noteq> c"
  proof
    assume "?r = c"
    then have "plug ?pb c = b + 65"
      using plug_involution [OF pb, of "b + 65"] by simp
    then have "?x = b" by simp
    then have "Inr f = (Inr u :: panic + int)"
      using f(1) b(4) by simp
    then show False
      using u(4) by simp
  qed
  then show ?thesis
    using s rl s' by blast
qed

subsection \<open>Every operation keeps the machine well-formed\<close>

lemma set_position_ok:
  assumes "machine_ok e" "0 \<le> v" "v < 26"
  shows "machine_ok (set_position e i v)"
proof -
  obtain x y z where r: "rotors e = Array3 x y z"
    using rotors_cases by blast
  show ?thesis
    using assms r by (simp add: machine_ok_def set_position_def rotor_def rotor_ok_def)
qed

lemma set_ringSetting_ok:
  assumes "machine_ok e" "0 \<le> v" "v < 26"
  shows "machine_ok (set_ringSetting e i v)"
proof -
  obtain x y z where r: "rotors e = Array3 x y z"
    using rotors_cases by blast
  show ?thesis
    using assms r by (simp add: machine_ok_def set_ringSetting_def rotor_def rotor_ok_def)
qed

lemma position_nonneg: "machine_ok e \<Longrightarrow> 0 \<le> position (rotor e i)"
proof -
  assume m: "machine_ok e"
  obtain x y z where r: "rotors e = Array3 x y z"
    using rotors_cases by blast
  show ?thesis
    using m r by (simp add: machine_ok_def rotor_def rotor_ok_def)
qed

lemma advance_ok:
  "machine_ok e \<Longrightarrow> machine_ok (set_position e i (go_rem (position (rotor e i) + 1) 26))"
  using go_rem_step [OF position_nonneg] set_position_ok by blast

lemma rotateRotors_ok:
  assumes m: "machine_ok e"
  shows "machine_ok (rotateRotors e)"
proof -
  let ?mid = "set_position e 1 (go_rem (position (rotor e 1) + 1) 26)"
  have mid: "machine_ok ?mid"
    by (intro advance_ok m)
  have left: "machine_ok (set_position ?mid 0 (go_rem (position (rotor ?mid 0) + 1) 26))"
    by (intro advance_ok m)
  have branch: "machine_ok (if c then x else y)" if "machine_ok x" "machine_ok y" for c x y
    using that by simp
  show ?thesis
    unfolding rotateRotors_def Let_def
    by (intro advance_ok branch mid left m)
qed

lemma Reset_ok: "machine_ok e \<Longrightarrow> machine_ok (Reset e)"
  by (simp add: Reset_def set_position_ok)

lemma SetRotorPositions_ok: "machine_ok e \<Longrightarrow> machine_ok (snd (SetRotorPositions e p0 p1 p2))"
  by (simp add: SetRotorPositions_def set_position_ok)

lemma SetRingSettings_ok: "machine_ok e \<Longrightarrow> machine_ok (snd (SetRingSettings e r0 r1 r2))"
  by (simp add: SetRingSettings_def set_ringSetting_ok)

lemma plug_ok_update:
  assumes "plug_ok pb" "65 \<le> a" "a \<le> 90" "65 \<le> b" "b \<le> 90" "pb a = None" "pb b = None"
  shows "plug_ok ((pb(a \<mapsto> b))(b \<mapsto> a))"
  unfolding plug_ok_def
proof (intro allI impI)
  fix x y
  assume h: "((pb(a \<mapsto> b))(b \<mapsto> a)) x = Some y"
  show "65 \<le> x \<and> x \<le> 90 \<and> ((pb(a \<mapsto> b))(b \<mapsto> a)) y = Some x"
  proof (cases "x = a \<or> x = b")
    case True
    then show ?thesis using h assms(2-5) by (auto split: if_splits)
  next
    case False
    then have old: "pb x = Some y" using h by simp
    then have p: "65 \<le> x \<and> x \<le> 90 \<and> pb y = Some x"
      using plug_ok_partner [OF assms(1)] by blast
    then have "y \<noteq> a \<and> y \<noteq> b"
      using assms(6,7) by auto
    then show ?thesis using p by simp
  qed
qed

lemma AddPlugboardConnection_ok:
  "machine_ok e \<Longrightarrow> machine_ok (snd (AddPlugboardConnection tbl e a b))"
  by (simp add: AddPlugboardConnection_def Let_def machine_ok_def rotor_def plug_ok_update)

lemma NewEnigma_ok:
  assumes "NewEnigma rotorNames reflectorName = Inr e"
  shows "machine_ok e"
proof -
  have "length rotorNames = 3"
    using assms by (simp add: NewEnigma_def split: if_splits)
  then obtain a b c where ns: "rotorNames = [a, b, c]"
    by (auto simp: length_Suc_conv numeral_3_eq_3)
  obtain rw where rw: "reflectors reflectorName = Some rw"
    using assms by (auto simp: NewEnigma_def ns split: option.splits)
  obtain wa wb wc where w: "rotorWirings a = Some wa" "rotorWirings b = Some wb"
      "rotorWirings c = Some wc"
    using assms by (auto simp: NewEnigma_def ns rw split: option.splits)
  have e: "e = \<lparr>rotors = Array3
        \<lparr>name = a, wiring = wa, position = 0, notch = rotorNotches a, ringSetting = 0\<rparr>
        \<lparr>name = b, wiring = wb, position = 0, notch = rotorNotches b, ringSetting = 0\<rparr>
        \<lparr>name = c, wiring = wc, position = 0, notch = rotorNotches c, ringSetting = 0\<rparr>,
      reflector = rw, plugboard = Map.empty\<rparr>"
    using assms by (simp add: NewEnigma_def ns rw w)
  have "wiring_ok wa" "wiring_ok wb" "wiring_ok wc"
    using w by (auto intro: rotorWirings_ok ranI)
  moreover have "reflector_ok rw"
    using rw by (auto intro: reflectors_ok ranI)
  ultimately show ?thesis
    by (simp add: e machine_ok_def rotor_def rotor_ok_def plug_ok_def)
qed

lemma encryptChar_ok:
  assumes "machine_ok e"
  shows "\<exists>r e'. encryptChar e c = Inr (r, e') \<and> machine_ok e' \<and>
           (65 \<le> c \<and> c \<le> 90 \<longrightarrow> 65 \<le> r \<and> r \<le> 90 \<and> r \<noteq> c) \<and>
           encryptChar e r = Inr (c, e')"
proof (cases "65 \<le> c \<and> c \<le> 90")
  case True
  let ?e = "rotateRotors e"
  have m: "machine_ok ?e"
    using assms by (rule rotateRotors_ok)
  obtain r where r: "substitute ?e c = Inr r" "65 \<le> r" "r \<le> 90" "r \<noteq> c"
      "substitute ?e r = Inr c"
    using substitute_ok [OF m] True by blast
  have "encryptChar e c = Inr (r, ?e)"
    using True r(1) by (simp add: encryptChar_substitute)
  moreover have "encryptChar e r = Inr (c, ?e)"
    using r(2,3,5) by (simp add: encryptChar_substitute)
  ultimately show ?thesis
    using m r(2,3,4) by blast
next
  case False
  then have "encryptChar e c = Inr (c, e)"
    by (auto simp: encryptChar_def)
  then show ?thesis
    using assms False by blast
qed

lemma reachable_machine_ok: "reachable tbl e \<Longrightarrow> machine_ok e"
proof (induction rule: reachable.induct)
  case (created rotorNames reflectorName e)
  then show ?case by (rule NewEnigma_ok)
next
  case (reset e)
  then show ?case by (simp add: Reset_ok)
next
  case (positions e p0 p1 p2)
  then show ?case by (simp add: SetRotorPositions_ok)
next
  case (rings e r0 r1 r2)
  then show ?case by (simp add: SetRingSettings_ok)
next
  case (plugged e a b)
  then show ?case by (simp add: AddPlugboardConnection_ok)
next
  case (rotated e)
  then show ?case by (simp add: rotateRotors_ok)
next
  case (encrypted e c r e')
  then show ?case
    using encryptChar_ok [of e c] by auto
qed

lemma encryptRunes_ok:
  "machine_ok e \<Longrightarrow>
   \<exists>ys e'. encryptRunes e xs = Inr (ys, e') \<and> encryptRunes e ys = Inr (xs, e')"
proof (induction xs arbitrary: e)
  case Nil
  then show ?case by simp
next
  case (Cons c cs)
  obtain r e1 where r: "encryptChar e c = Inr (r, e1)" "machine_ok e1"
      "encryptChar e r = Inr (c, e1)"
    using encryptChar_ok [OF Cons.prems] by blast
  obtain rs e2 where rs: "encryptRunes e1 cs = Inr (rs, e2)" "encryptRunes e1 rs = Inr (cs, e2)"
    using Cons.IH [OF r(2)] by blast
  have "encryptRunes e (c # cs) = Inr (r # rs, e2)"
    using r(1) rs(1) by simp
  moreover have "encryptRunes e (r # rs) = Inr (c # cs, e2)"
    using r(3) rs(2) by simp
  ultimately show ?case by blast
qed

section \<open>Properties\<close>

text \<open>
  C1 (reciprocity): on every reachable machine, encrypting a sequence of runes one by one
  with \<^verbatim>\<open>encryptChar\<close> returns a sequence, and encrypting that sequence from the same
  starting machine returns the original sequence, in the same final machine.  The
  sequences of letters \<open>A-Z\<close> are a special case.
\<close>

theorem reciprocity:
  "reachable tbl e \<Longrightarrow>
   \<exists>ys e'. encryptRunes e xs = Inr (ys, e') \<and> encryptRunes e ys = Inr (xs, e')"
  using encryptRunes_ok reachable_machine_ok by blast

theorem reciprocity_witness:
  "reachable id sample_machine \<and>
   (\<exists>ys e'. encryptRunes sample_machine [72, 69, 76, 76, 79, 33] = Inr (ys, e') \<and>
      encryptRunes sample_machine ys = Inr ([72, 69, 76, 76, 79, 33], e'))"
  using reachable_sample reciprocity [OF reachable_sample, of "[72, 69, 76, 76, 79, 33]"]
  by simp

text \<open>
  C2 (rotation step): on a machine whose rotor positions lie in \<open>[0,26)\<close>, one call of
  \<^verbatim>\<open>rotateRotors\<close> advances the middle and the left rotor by 1 modulo 26 when the middle
  rotor is at \<open>notch - 1\<close>; otherwise it advances the middle rotor when the right rotor is
  at \<open>notch - 1\<close>; it always advances the right rotor by 1 modulo 26; and it changes
  nothing else in the machine.
\<close>

theorem rotateRotors_step:
  assumes "positions_in_range e"
  shows "rotateRotors e =
     e\<lparr>rotors := Array3
         ((rotor e 0)\<lparr>position :=
            if position (rotor e 1) = notch (rotor e 1) - 1
            then (position (rotor e 0) + 1) mod 26 else position (rotor e 0)\<rparr>)
         ((rotor e 1)\<lparr>position :=
            if position (rotor e 1) = notch (rotor e 1) - 1
            then (position (rotor e 1) + 1) mod 26
            else if position (rotor e 2) = notch (rotor e 2) - 1
            then (position (rotor e 1) + 1) mod 26 else position (rotor e 1)\<rparr>)
         ((rotor e 2)\<lparr>position := (position (rotor e 2) + 1) mod 26\<rparr>)\<rparr>"
proof -
  obtain x y z where r: "rotors e = Array3 x y z"
    using rotors_cases by blast
  from assms r show ?thesis
    by (simp add: rotateRotors_def positions_in_range_def rotor_def set_position_def
        go_rem_nonneg Let_def)
qed

theorem rotateRotors_step_witness:
  "positions_in_range (set_position (set_position sample_machine 1 4) 2 25) \<and>
   rotors (rotateRotors (set_position (set_position sample_machine 1 4) 2 25)) =
     Array3
        \<lparr>name = ''I'', wiring = ''EKMFLGDQVZNTOWYHXUSPAIBRCJ'', position = 1, notch = 17, ringSetting = 0\<rparr>
        \<lparr>name = ''II'', wiring = ''AJDKSIRUXBLHWTMCQGZNPYFVOE'', position = 5, notch = 5, ringSetting = 0\<rparr>
        \<lparr>name = ''III'', wiring = ''BDFHJLCPRTXVZNYEIWGAKMUSQO'', position = 0, notch = 22, ringSetting = 0\<rparr>"
proof -
  have h: "positions_in_range (set_position (set_position sample_machine 1 4) 2 25)"
    by (simp add: positions_in_range_def set_position_def rotor_def sample_machine_def)
  show ?thesis
    using h rotateRotors_step [OF h]
    by (simp add: set_position_def rotor_def sample_machine_def)
qed

text \<open>
  C3 (self-pair), as stated, fails: on the fresh example machine
  \<^verbatim>\<open>AddPlugboardConnection('A', 'A')\<close> returns no error and leaves the pair \<open>A \<mapsto> A\<close> in the
  plugboard.
\<close>

theorem self_pair_accepted:
  "AddPlugboardConnection id sample_machine 65 65 =
     (None, sample_machine\<lparr>plugboard := [65 \<mapsto> 65]\<rparr>)"
  by (simp add: AddPlugboardConnection_def ToUpper_def sample_machine_def)

text \<open>
  C3 as amended: for a letter \<open>a\<close> of \<open>A-Z\<close>, \<^verbatim>\<open>AddPlugboardConnection(a, a)\<close> fails with
  \<open>AlreadyConnected a\<close>, leaving the machine as it was, exactly when \<open>a\<close> already has a
  partner; when \<open>a\<close> has none, the call succeeds and stores the self-pair \<open>a \<mapsto> a\<close>.
\<close>

theorem self_pair_connection:
  "65 \<le> a \<and> a \<le> 90 \<Longrightarrow>
   AddPlugboardConnection tbl e a a =
     (if plugboard e a = None then (None, e\<lparr>plugboard := (plugboard e)(a \<mapsto> a)\<rparr>)
      else (Some (AlreadyConnected a), e))"
  by (auto simp: AddPlugboardConnection_def ToUpper_def)

theorem self_pair_connection_witness:
  "(65::int) \<le> 81 \<and> (81::int) \<le> 90 \<and>
   AddPlugboardConnection id sample_machine 81 81 =
     (None, sample_machine\<lparr>plugboard := [81 \<mapsto> 81]\<rparr>) \<and>
   AddPlugboardConnection id (sample_machine\<lparr>plugboard := [81 \<mapsto> 70, 70 \<mapsto> 81]\<rparr>) 81 81 =
     (Some (AlreadyConnected 81), sample_machine\<lparr>plugboard := [81 \<mapsto> 70, 70 \<mapsto> 81]\<rparr>)"
  using self_pair_connection [of 81 id sample_machine]
    self_pair_connection [of 81 id "sample_machine\<lparr>plugboard := [81 \<mapsto> 70, 70 \<mapsto> 81]\<rparr>"]
  by (simp add: sample_machine_def)

text \<open>
  C4 (no letter encrypts to itself): on every reachable machine \<^verbatim>\<open>encryptChar\<close> of a
  letter of \<open>A-Z\<close> returns, without a panic, a letter of \<open>A-Z\<close> other than the input.
\<close>

theorem no_self_encryption:
  "reachable tbl e \<Longrightarrow> 65 \<le> c \<Longrightarrow> c \<le> 90 \<Longrightarrow>
   \<exists>r e'. encryptChar e c = Inr (r, e') \<and> 65 \<le> r \<and> r \<le> 90 \<and> r \<noteq> c"
  using encryptChar_ok [OF reachable_machine_ok, of tbl e c] by blast

theorem no_self_encryption_witness:
  "reachable id sample_machine \<and> (65::int) \<le> 65 \<and> (65::int) \<le> 90 \<and>
   (\<exists>r e'. encryptChar sample_machine 65 = Inr (r, e') \<and> 65 \<le> r \<and> r \<le> 90 \<and> r \<noteq> 65)"
  using reachable_sample no_self_encryption [OF reachable_sample, of 65]
  by simp

text \<open>
  C5 (plugboard pairs), as stated, fails: after \<^verbatim>\<open>AddPlugboardConnection('A', 'B')\<close> on the
  fresh example machine, the call \<^verbatim>\<open>AddPlugboardConnection('A', '1')\<close> names the connected
  letter \<open>A\<close> and fails with \<open>InvalidLetter\<close>, not with \<open>AlreadyConnected\<close>: the test of
  the range comes before the test of the plugboard.
\<close>

theorem connected_letter_next_to_digit:
  "AddPlugboardConnection id sample_machine 65 66 =
     (None, sample_machine\<lparr>plugboard := [65 \<mapsto> 66, 66 \<mapsto> 65]\<rparr>) \<and>
   AddPlugboardConnection id (sample_machine\<lparr>plugboard := [65 \<mapsto> 66, 66 \<mapsto> 65]\<rparr>) 65 49 =
     (Some InvalidLetter, sample_machine\<lparr>plugboard := [65 \<mapsto> 66, 66 \<mapsto> 65]\<rparr>)"
  by (simp add: AddPlugboardConnection_def ToUpper_def sample_machine_def)

text \<open>
  C5 as amended: when the upper-case forms of \<open>a\<close> and \<open>b\<close> are letters of \<open>A-Z\<close> with no
  partner, \<^verbatim>\<open>AddPlugboardConnection(a, b)\<close> succeeds and returns the machine it was given
  with the two entries \<open>A \<mapsto> B\<close> and \<open>B \<mapsto> A\<close> added to the plugboard and nothing else
  changed, so that the plugboard maps each of the two to the other; on that machine a
  call that names \<open>a\<close> or \<open>b\<close>, on either side, fails and changes nothing, with
  \<open>AlreadyConnected\<close> when the other argument is a letter (the error names the first of
  the two arguments that has a partner) and with \<open>InvalidLetter\<close> when it is not; and a
  call that fails, for whatever reason, returns the machine unchanged.
\<close>

theorem plug_pair_installed:
  "(upper_letter tbl a \<and> upper_letter tbl b \<and>
    plugboard e (ToUpper tbl a) = None \<and> plugboard e (ToUpper tbl b) = None \<longrightarrow>
      (let A = ToUpper tbl a; B = ToUpper tbl b;
           e' = e\<lparr>plugboard := ((plugboard e)(A \<mapsto> B))(B \<mapsto> A)\<rparr>
       in AddPlugboardConnection tbl e a b = (None, e') \<and>
          plugboard e' A = Some B \<and> plugboard e' B = Some A \<and>
          (\<forall>c. (upper_letter tbl c \<longrightarrow>
                  AddPlugboardConnection tbl e' a c = (Some (AlreadyConnected A), e') \<and>
                  AddPlugboardConnection tbl e' b c = (Some (AlreadyConnected B), e') \<and>
                  AddPlugboardConnection tbl e' c a =
                    (Some (AlreadyConnected
                       (if plugboard e' (ToUpper tbl c) = None then A else ToUpper tbl c)), e') \<and>
                  AddPlugboardConnection tbl e' c b =
                    (Some (AlreadyConnected
                       (if plugboard e' (ToUpper tbl c) = None then B else ToUpper tbl c)), e')) \<and>
               (\<not> upper_letter tbl c \<longrightarrow>
                  AddPlugboardConnection tbl e' a c = (Some InvalidLetter, e') \<and>
                  AddPlugboardConnection tbl e' b c = (Some InvalidLetter, e') \<and>
                  AddPlugboardConnection tbl e' c a = (Some InvalidLetter, e') \<and>
                  AddPlugboardConnection tbl e' c b = (Some InvalidLetter, e'))))) \<and>
   (fst (AddPlugboardConnection tbl e a b) \<noteq> None \<longrightarrow>
      snd (AddPlugboardConnection tbl e a b) = e)"
proof (intro conjI impI)
  assume h: "upper_letter tbl a \<and> upper_letter tbl b \<and>
    plugboard e (ToUpper tbl a) = None \<and> plugboard e (ToUpper tbl b) = None"
  define A where "A = ToUpper tbl a"
  define B where "B = ToUpper tbl b"
  define e' where "e' = e\<lparr>plugboard := ((plugboard e)(A \<mapsto> B))(B \<mapsto> A)\<rparr>"
  have ra: "65 \<le> A \<and> A \<le> 90" and rb: "65 \<le> B \<and> B \<le> 90"
    and na: "plugboard e A = None" and nb: "plugboard e B = None"
    using h by (simp_all add: upper_letter_def A_def B_def)
  have ok: "AddPlugboardConnection tbl e a b = (None, e')"
    using ra rb na nb
    by (simp add: AddPlugboardConnection_def Let_def A_def [symmetric] B_def [symmetric] e'_def)
  have pa: "plugboard e' A = Some B" and pb: "plugboard e' B = Some A"
    by (simp_all add: e'_def)
  have later: "(upper_letter tbl c \<longrightarrow>
                  AddPlugboardConnection tbl e' a c = (Some (AlreadyConnected A), e') \<and>
                  AddPlugboardConnection tbl e' b c = (Some (AlreadyConnected B), e') \<and>
                  AddPlugboardConnection tbl e' c a =
                    (Some (AlreadyConnected
                       (if plugboard e' (ToUpper tbl c) = None then A else ToUpper tbl c)), e') \<and>
                  AddPlugboardConnection tbl e' c b =
                    (Some (AlreadyConnected
                       (if plugboard e' (ToUpper tbl c) = None then B else ToUpper tbl c)), e')) \<and>
               (\<not> upper_letter tbl c \<longrightarrow>
                  AddPlugboardConnection tbl e' a c = (Some InvalidLetter, e') \<and>
                  AddPlugboardConnection tbl e' b c = (Some InvalidLetter, e') \<and>
                  AddPlugboardConnection tbl e' c a = (Some InvalidLetter, e') \<and>
                  AddPlugboardConnection tbl e' c b = (Some InvalidLetter, e'))" for c
  proof (cases "upper_letter tbl c")
    case True
    then have rc: "65 \<le> ToUpper tbl c \<and> ToUpper tbl c \<le> 90"
      by (simp add: upper_letter_def)
    show ?thesis
      using True ra rb rc pa pb
      by (simp add: AddPlugboardConnection_def Let_def A_def [symmetric] B_def [symmetric])
  next
    case False
    then have rc: "ToUpper tbl c < 65 \<or> 90 < ToUpper tbl c"
      by (auto simp: upper_letter_def)
    show ?thesis
      using False rc
      by (auto simp: AddPlugboardConnection_def Let_def)
  qed
  show "let A = ToUpper tbl a; B = ToUpper tbl b;
           e' = e\<lparr>plugboard := ((plugboard e)(A \<mapsto> B))(B \<mapsto> A)\<rparr>
       in AddPlugboardConnection tbl e a b = (None, e') \<and>
          plugboard e' A = Some B \<and> plugboard e' B = Some A \<and>
          (\<forall>c. (upper_letter tbl c \<longrightarrow>
                  AddPlugboardConnection tbl e' a c = (Some (AlreadyConnected A), e') \<and>
                  AddPlugboardConnection tbl e' b c = (Some (AlreadyConnected B), e') \<and>
                  AddPlugboardConnection tbl e' c a =
                    (Some (AlreadyConnected
                       (if plugboard e' (ToUpper tbl c) = None then A else ToUpper tbl c)), e') \<and>
                  AddPlugboardConnection tbl e' c b =
                    (Some (AlreadyConnected
                       (if plugboard e' (ToUpper tbl c) = None then B else ToUpper tbl c)), e')) \<and>
               (\<not> upper_letter tbl c \<longrightarrow>
                  AddPlugboardConnection tbl e' a c = (Some InvalidLetter, e') \<and>
                  AddPlugboardConnection tbl e' b c = (Some InvalidLetter, e') \<and>
                  AddPlugboardConnection tbl e' c a = (Some InvalidLetter, e') \<and>
                  AddPlugboardConnection tbl e' c b = (Some InvalidLetter, e')))"
    unfolding Let_def A_def [symmetric] B_def [symmetric] e'_def [symmetric]
    using ok pa pb later by blast
next
  assume "fst (AddPlugboardConnection tbl e a b) \<noteq> None"
  then show "snd (AddPlugboardConnection tbl e a b) = e"
    by (auto simp: AddPlugboardConnection_def Let_def split: if_splits)
qed

theorem plug_pair_installed_witness:
  "upper_letter id 65 \<and> upper_letter id 98 \<and> upper_letter id 67 \<and> \<not> upper_letter id 49 \<and>
   plugboard sample_machine (ToUpper id 65) = None \<and>
   plugboard sample_machine (ToUpper id 98) = None \<and>
   AddPlugboardConnection id sample_machine 65 98 =
     (None, sample_machine\<lparr>plugboard := [65 \<mapsto> 66, 66 \<mapsto> 65]\<rparr>) \<and>
   AddPlugboardConnection id (sample_machine\<lparr>plugboard := [65 \<mapsto> 66, 66 \<mapsto> 65]\<rparr>) 65 67 =
     (Some (AlreadyConnected 65), sample_machine\<lparr>plugboard := [65 \<mapsto> 66, 66 \<mapsto> 65]\<rparr>) \<and>
   AddPlugboardConnection id (sample_machine\<lparr>plugboard := [65 \<mapsto> 66, 66 \<mapsto> 65]\<rparr>) 67 98 =
     (Some (AlreadyConnected 66), sample_machine\<lparr>plugboard := [65 \<mapsto> 66, 66 \<mapsto> 65]\<rparr>) \<and>
   AddPlugboardConnection id (sample_machine\<lparr>plugboard := [65 \<mapsto> 66, 66 \<mapsto> 65]\<rparr>) 65 49 =
     (Some InvalidLetter, sample_machine\<lparr>plugboard := [65 \<mapsto> 66, 66 \<mapsto> 65]\<rparr>) \<and>
   fst (AddPlugboardConnection id sample_machine 48 65) \<noteq> None \<and>
   snd (AddPlugboardConnection id sample_machine 48 65) = sample_machine"
proof -
  let ?e' = "sample_machine\<lparr>plugboard := [65 \<mapsto> 66, 66 \<mapsto> 65]\<rparr>"
  have up: "ToUpper id 65 = 65" "ToUpper id 98 = 66"
    by (simp_all add: ToUpper_def)
  have l: "upper_letter id 65" "upper_letter id 98" "upper_letter id 67" "\<not> upper_letter id 49"
    by (simp_all add: upper_letter_def ToUpper_def)
  have ps: "plugboard sample_machine = Map.empty"
    by (simp add: sample_machine_def)
  have na: "plugboard sample_machine (ToUpper id 65) = None"
    and nb: "plugboard sample_machine (ToUpper id 98) = None"
    by (simp_all add: ps)
  have h: "upper_letter id 65 \<and> upper_letter id 98 \<and>
      plugboard sample_machine (ToUpper id 65) = None \<and>
      plugboard sample_machine (ToUpper id 98) = None"
    by (intro conjI l na nb)
  note t = plug_pair_installed [of id 65 98 sample_machine, THEN conjunct1, THEN mp, OF h,
      unfolded Let_def up ps]
  have ok: "AddPlugboardConnection id sample_machine 65 98 = (None, ?e')"
    by (rule t [THEN conjunct1])
  note later = t [THEN conjunct2, THEN conjunct2, THEN conjunct2, THEN spec]
  note letter = later [of 67, THEN conjunct1, THEN mp, OF l(3)]
  have c67: "AddPlugboardConnection id ?e' 65 67 = (Some (AlreadyConnected 65), ?e')"
    by (rule letter [THEN conjunct1])
  have c98: "AddPlugboardConnection id ?e' 67 98 = (Some (AlreadyConnected 66), ?e')"
    using letter [THEN conjunct2, THEN conjunct2, THEN conjunct2]
    by (simp add: ToUpper_def)
  have c49: "AddPlugboardConnection id ?e' 65 49 = (Some InvalidLetter, ?e')"
    by (rule later [of 49, THEN conjunct2, THEN mp, OF l(4), THEN conjunct1])
  have f: "fst (AddPlugboardConnection id sample_machine 48 65) \<noteq> None"
    by (simp add: AddPlugboardConnection_def ToUpper_def)
  have u: "snd (AddPlugboardConnection id sample_machine 48 65) = sample_machine"
    by (rule plug_pair_installed [of id 48 65 sample_machine, THEN conjunct2, THEN mp, OF f])
  show ?thesis
    by (intro conjI l na nb ok c67 c98 c49 f u)
qed

text \<open>
  C6 (range checks): \<^verbatim>\<open>SetRotorPositions\<close> and \<^verbatim>\<open>SetRingSettings\<close> succeed exactly
  when their three arguments are in \<open>[1,26]\<close>; then every rotor stores its argument minus
  1 and nothing else changes; otherwise the call fails with \<open>OutOfRange\<close> and the machine
  is unchanged.
\<close>

theorem setters_range:
  "(fst (SetRotorPositions e p0 p1 p2) = None \<longleftrightarrow> in_1_26 p0 \<and> in_1_26 p1 \<and> in_1_26 p2) \<and>
   (in_1_26 p0 \<and> in_1_26 p1 \<and> in_1_26 p2 \<longrightarrow>
      snd (SetRotorPositions e p0 p1 p2) =
        e\<lparr>rotors := Array3 ((rotor e 0)\<lparr>position := p0 - 1\<rparr>)
                           ((rotor e 1)\<lparr>position := p1 - 1\<rparr>)
                           ((rotor e 2)\<lparr>position := p2 - 1\<rparr>)\<rparr>) \<and>
   (\<not> (in_1_26 p0 \<and> in_1_26 p1 \<and> in_1_26 p2) \<longrightarrow>
      SetRotorPositions e p0 p1 p2 =
        (Some (OutOfRange ''rotor positions must be between 1 and 26''), e)) \<and>
   (fst (SetRingSettings e r0 r1 r2) = None \<longleftrightarrow> in_1_26 r0 \<and> in_1_26 r1 \<and> in_1_26 r2) \<and>
   (in_1_26 r0 \<and> in_1_26 r1 \<and> in_1_26 r2 \<longrightarrow>
      snd (SetRingSettings e r0 r1 r2) =
        e\<lparr>rotors := Array3 ((rotor e 0)\<lparr>ringSetting := r0 - 1\<rparr>)
                           ((rotor e 1)\<lparr>ringSetting := r1 - 1\<rparr>)
                           ((rotor e 2)\<lparr>ringSetting := r2 - 1\<rparr>)\<rparr>) \<and>
   (\<not> (in_1_26 r0 \<and> in_1_26 r1 \<and> in_1_26 r2) \<longrightarrow>
      SetRingSettings e r0 r1 r2 =
        (Some (OutOfRange ''ring settings must be between 1 and 26''), e))"
proof -
  obtain x y z where r: "rotors e = Array3 x y z"
    using rotors_cases by blast
  have pos: "SetRotorPositions e p0 p1 p2 =
      (if in_1_26 p0 \<and> in_1_26 p1 \<and> in_1_26 p2
       then (None, e\<lparr>rotors := Array3 (x\<lparr>position := p0 - 1\<rparr>) (y\<lparr>position := p1 - 1\<rparr>)
                                       (z\<lparr>position := p2 - 1\<rparr>)\<rparr>)
       else (Some (OutOfRange ''rotor positions must be between 1 and 26''), e))"
    using r by (auto simp: SetRotorPositions_def in_1_26_def set_position_def rotor_def)
  have ring: "SetRingSettings e r0 r1 r2 =
      (if in_1_26 r0 \<and> in_1_26 r1 \<and> in_1_26 r2
       then (None, e\<lparr>rotors := Array3 (x\<lparr>ringSetting := r0 - 1\<rparr>) (y\<lparr>ringSetting := r1 - 1\<rparr>)
                                       (z\<lparr>ringSetting := r2 - 1\<rparr>)\<rparr>)
       else (Some (OutOfRange ''ring settings must be between 1 and 26''), e))"
    using r by (auto simp: SetRingSettings_def in_1_26_def set_ringSetting_def rotor_def)
  have rot: "rotor e 0 = x" "rotor e 1 = y" "rotor e 2 = z"
    using r by (simp_all add: rotor_def)
  show ?thesis
    unfolding pos ring rot by simp
qed

theorem setters_range_witness:
  "in_1_26 3 \<and> in_1_26 26 \<and> in_1_26 1 \<and> \<not> in_1_26 0 \<and> \<not> in_1_26 27 \<and>
   SetRotorPositions sample_machine 3 26 1 = (None, 
      sample_machine\<lparr>rotors := Array3 ((rotor sample_machine 0)\<lparr>position := 2\<rparr>)
                           ((rotor sample_machine 1)\<lparr>position := 25\<rparr>)
                           ((rotor sample_machine 2)\<lparr>position := 0\<rparr>)\<rparr>) \<and>
   SetRotorPositions sample_machine 0 1 1 =
     (Some (OutOfRange ''rotor positions must be between 1 and 26''), sample_machine) \<and>
   SetRingSettings sample_machine 3 26 1 = (None, 
      sample_machine\<lparr>rotors := Array3 ((rotor sample_machine 0)\<lparr>ringSetting := 2\<rparr>)
                           ((rotor sample_machine 1)\<lparr>ringSetting := 25\<rparr>)
                           ((rotor sample_machine 2)\<lparr>ringSetting := 0\<rparr>)\<rparr>) \<and>
   SetRingSettings sample_machine 1 27 1 =
     (Some (OutOfRange ''ring settings must be between 1 and 26''), sample_machine)"
proof -
  have h: "in_1_26 3" "in_1_26 26" "in_1_26 1" "\<not> in_1_26 0" "\<not> in_1_26 27"
    by (simp_all add: in_1_26_def)
  show ?thesis
    using h setters_range [of sample_machine 3 26 1 3 26 1]
      setters_range [of sample_machine 0 1 1 1 27 1]
    by (simp add: prod_eq_iff)
qed

text \<open>
  C7 (reflector involution): for each of the reflector wirings A, B, C and each index
  \<open>x\<close> of \<open>0..25\<close>, reflecting \<open>x\<close> gives an index of \<open>0..25\<close>, and reflecting that
  index gives \<open>x\<close> again.
\<close>

theorem reflector_involution:
  "w \<in> ran reflectors \<Longrightarrow> 0 \<le> x \<Longrightarrow> x < 26 \<Longrightarrow>
   \<exists>y. reflect w x = Inr y \<and> 0 \<le> y \<and> y < 26 \<and> reflect w y = Inr x"
  using reflect_ok [OF reflectors_ok, of w x] by blast

theorem reflector_involution_witness:
  "''YRUHQSLDPXNGOKMIEBFZCWVJAT'' \<in> ran reflectors \<and> (0::int) \<le> 0 \<and> (0::int) < 26 \<and>
   (\<exists>y. reflect ''YRUHQSLDPXNGOKMIEBFZCWVJAT'' 0 = Inr y \<and> 0 \<le> y \<and> y < 26 \<and>
      reflect ''YRUHQSLDPXNGOKMIEBFZCWVJAT'' y = Inr 0)"
proof -
  have h: "''YRUHQSLDPXNGOKMIEBFZCWVJAT'' \<in> ran reflectors"
    by (simp add: ran_reflectors)
  show ?thesis
    using h reflector_involution [OF h, of 0] by simp
qed

text \<open>
  C8 (passthrough): on every machine, \<^verbatim>\<open>encryptChar\<close> of a rune outside \<open>A-Z\<close> returns
  the rune and the machine as they were: no rotor moves.
\<close>

theorem encryptChar_passthrough:
  "c < 65 \<or> 90 < c \<Longrightarrow> encryptChar e c = Inr (c, e)"
  by (auto simp: encryptChar_def)

theorem encryptChar_passthrough_witness:
  "((49::int) < 65 \<or> 90 < (49::int)) \<and> encryptChar sample_machine 49 = Inr (49, sample_machine)"
  using encryptChar_passthrough [of 49 sample_machine] by simp

text \<open>
  C9 (ranges): on every reachable machine, that is after \<^verbatim>\<open>NewEnigma\<close> and after any
  sequence of \<^verbatim>\<open>Reset\<close>, the setters, \<^verbatim>\<open>rotateRotors\<close> and \<^verbatim>\<open>encryptChar\<close>, the
  position and the ring setting of each of the three rotors lie in \<open>[0,26)\<close>.
\<close>

theorem reachable_settings_in_range: "reachable tbl e \<Longrightarrow> settings_in_range e"
proof -
  assume "reachable tbl e"
  then have "machine_ok e" by (rule reachable_machine_ok)
  then show ?thesis
    by (auto simp: machine_ok_def rotor_ok_def settings_in_range_def)
qed

theorem reachable_settings_in_range_witness:
  "reachable id (rotateRotors (snd (SetRingSettings (snd (SetRotorPositions sample_machine 26 5 26)) 26 1 13))) \<and>
   settings_in_range (rotateRotors (snd (SetRingSettings (snd (SetRotorPositions sample_machine 26 5 26)) 26 1 13))) \<and>
   map (\<lambda>i. position (rotor (rotateRotors (snd (SetRingSettings
           (snd (SetRotorPositions sample_machine 26 5 26)) 26 1 13))) i)) [0, 1, 2] = [0, 5, 0] \<and>
   map (\<lambda>i. ringSetting (rotor (rotateRotors (snd (SetRingSettings
           (snd (SetRotorPositions sample_machine 26 5 26)) 26 1 13))) i)) [0, 1, 2] = [25, 0, 12] \<and>
   (\<exists>r e'. encryptChar (rotateRotors (snd (SetRingSettings
           (snd (SetRotorPositions sample_machine 26 5 26)) 26 1 13))) 72 = Inr (r, e') \<and>
      reachable id e' \<and> settings_in_range e' \<and>
      map (\<lambda>i. position (rotor e' i)) [0, 1, 2] = [0, 5, 1]) \<and>
   reachable id (Reset (snd (SetRotorPositions sample_machine 26 5 26))) \<and>
   settings_in_range (Reset (snd (SetRotorPositions sample_machine 26 5 26)))"
proof -
  let ?m = "rotateRotors (snd (SetRingSettings (snd (SetRotorPositions sample_machine 26 5 26)) 26 1 13))"
  have hp: "reachable id (snd (SetRotorPositions sample_machine 26 5 26))"
    by (rule reachable.positions [OF reachable_sample])
  have h: "reachable id ?m"
    by (rule reachable.rotated [OF reachable.rings [OF hp]])
  have hr: "reachable id (Reset (snd (SetRotorPositions sample_machine 26 5 26)))"
    by (rule reachable.reset [OF hp])
  have pos: "map (\<lambda>i. position (rotor ?m i)) [0, 1, 2] = [0, 5, 0]"
    by (simp add: SetRotorPositions_def SetRingSettings_def rotateRotors_def set_position_def
        set_ringSetting_def rotor_def sample_machine_def go_rem_def Let_def)
  have ring: "map (\<lambda>i. ringSetting (rotor ?m i)) [0, 1, 2] = [25, 0, 12]"
    by (simp add: SetRotorPositions_def SetRingSettings_def rotateRotors_def set_position_def
        set_ringSetting_def rotor_def sample_machine_def go_rem_def Let_def)
  obtain r where r: "encryptChar ?m 72 = Inr (r, rotateRotors ?m)"
    using substitute_ok [OF rotateRotors_ok [OF reachable_machine_ok [OF h]], of 72]
    by (auto simp: encryptChar_substitute)
  have he: "reachable id (rotateRotors ?m)"
    by (rule reachable.encrypted [OF h r])
  have pos': "map (\<lambda>i. position (rotor (rotateRotors ?m) i)) [0, 1, 2] = [0, 5, 1]"
    by (simp add: SetRotorPositions_def SetRingSettings_def rotateRotors_def set_position_def
        set_ringSetting_def rotor_def sample_machine_def go_rem_def Let_def)
  have ex: "\<exists>r e'. encryptChar ?m 72 = Inr (r, e') \<and> reachable id e' \<and>
      settings_in_range e' \<and> map (\<lambda>i. position (rotor e' i)) [0, 1, 2] = [0, 5, 1]"
    by (intro exI [of _ r] exI [of _ "rotateRotors ?m"] conjI r he pos'
        reachable_settings_in_range [OF he])
  show ?thesis
    by (intro conjI h pos ring ex hr reachable_settings_in_range [OF h]
        reachable_settings_in_range [OF hr])
qed

text \<open>
  C10 (wirings are bijections): every wiring string of the rotor table and of the
  reflector table has 26 characters, and each letter of \<open>A-Z\<close> occurs in it exactly
  once.
\<close>

theorem wirings_bijective:
  "w \<in> ran rotorWirings \<union> ran reflectors \<Longrightarrow>
   length w = 26 \<and> (\<forall>c \<in> set alphabet. count_list w c = 1)"
  unfolding ran_rotorWirings ran_reflectors alphabet_def
  by (elim UnE insertE emptyE) simp_all

theorem wirings_bijective_witness:
  "''ESOVPZJAYQUIRHXLNFTGKDCMWB'' \<in> ran rotorWirings \<union> ran reflectors \<and>
   length ''ESOVPZJAYQUIRHXLNFTGKDCMWB'' = 26 \<and>
   count_list ''ESOVPZJAYQUIRHXLNFTGKDCMWB'' CHR ''Q'' = 1"
proof -
  have h: "''ESOVPZJAYQUIRHXLNFTGKDCMWB'' \<in> ran rotorWirings \<union> ran reflectors"
    by (simp add: ran_rotorWirings)
  show ?thesis
    using h wirings_bijective [OF h] by (simp add: alphabet_def)
qed

end
